theory Spec2Isabelle
  imports Complex_Main
begin

section \<open>Values\<close>

text \<open>
  The script computes with numpy \<open>float64\<close> values. A finite float is a \<open>real\<close>;
  rounding to 53 bits and underflow are not modelled. What IEEE arithmetic does instead
  of raising is: a result beyond the largest float overflows to an infinity, a division
  by zero gives an infinity or NaN, and these propagate. The three extra values model
  that. The numbers read from a CSV file (calibration entries, table cells) are taken
  to be finite.
\<close>

datatype fval = Fin real | PInf | NInf | NaN

datatype py_error = KeyError string | ValueError string

section \<open>The interpolation function\<close>

text \<open>The table \<open>SCREEN2HEADING_DATA\<close>, as \<open>pd.read_csv\<close> parses it.\<close>

definition SCREEN2HEADING_DATA :: "(real \<times> real) list" where
  "SCREEN2HEADING_DATA =
     [(0, 2.3513283485530456),
      (80, 1.2179812647799937),
      (160, 0.5031545295746856),
      (240, - 0.3078141744904855),
      (320, - 0.8746949393526915),
      (400, - 1.5019022477483523),
      (480, - 2.185375561680841),
      (560, - 3.0123437340031307),
      (640, 2.3513283485530456)]"

subsection \<open>Arithmetic that does not raise\<close>

text \<open>
  A result overflows when rounding it would pass the largest float
  \<open>2 ^ 1024 - 2 ^ 971\<close>, that is from \<open>2 ^ 1024 - 2 ^ 970\<close> on.
\<close>

definition overflow_threshold :: real where
  "overflow_threshold = 2 ^ 1024 - 2 ^ 970"

definition fl :: "real \<Rightarrow> fval" where
  "fl r =
     (if overflow_threshold \<le> r then PInf
      else if r \<le> - overflow_threshold then NInf
      else Fin r)"

text \<open>The difference of two finite numbers.\<close>

definition fsub :: "real \<Rightarrow> real \<Rightarrow> fval" where
  "fsub a b = fl (a - b)"

text \<open>
  Quotient and product. A zero divisor gives an infinity with the sign of the dividend,
  or NaN for \<open>0 / 0\<close>; a zero is the positive zero (the zero divisor of the script
  is a difference of two equal numbers, which is the positive zero).
\<close>

fun fdiv :: "fval \<Rightarrow> fval \<Rightarrow> fval" where
  "fdiv NaN b = NaN"
| "fdiv a NaN = NaN"
| "fdiv (Fin a) (Fin b) =
     (if b \<noteq> 0 then fl (a / b)
      else if 0 < a then PInf
      else if a < 0 then NInf
      else NaN)"
| "fdiv (Fin a) PInf = Fin 0"
| "fdiv (Fin a) NInf = Fin 0"
| "fdiv PInf (Fin b) = (if 0 \<le> b then PInf else NInf)"
| "fdiv NInf (Fin b) = (if 0 \<le> b then NInf else PInf)"
| "fdiv PInf PInf = NaN"
| "fdiv PInf NInf = NaN"
| "fdiv NInf PInf = NaN"
| "fdiv NInf NInf = NaN"

fun fmul :: "fval \<Rightarrow> fval \<Rightarrow> fval" where
  "fmul NaN b = NaN"
| "fmul a NaN = NaN"
| "fmul (Fin a) (Fin b) = fl (a * b)"
| "fmul (Fin a) PInf = (if 0 < a then PInf else if a < 0 then NInf else NaN)"
| "fmul (Fin a) NInf = (if 0 < a then NInf else if a < 0 then PInf else NaN)"
| "fmul PInf (Fin b) = (if 0 < b then PInf else if b < 0 then NInf else NaN)"
| "fmul NInf (Fin b) = (if 0 < b then NInf else if b < 0 then PInf else NaN)"
| "fmul PInf PInf = PInf"
| "fmul PInf NInf = NInf"
| "fmul NInf PInf = NInf"
| "fmul NInf NInf = PInf"

text \<open>The sum with a finite number.\<close>

fun fadd :: "fval \<Rightarrow> real \<Rightarrow> fval" where
  "fadd (Fin a) b = fl (a + b)"
| "fadd PInf b = PInf"
| "fadd NInf b = NInf"
| "fadd NaN b = NaN"

text \<open>
  The two-argument arctangent of two finite numbers, with its value \<open>0\<close> at the
  origin. A zero is the positive zero.
\<close>

definition atan2 :: "real \<Rightarrow> real \<Rightarrow> real" where
  "atan2 y x =
     (if 0 < x then arctan (y / x)
      else if x < 0 \<and> 0 \<le> y then arctan (y / x) + pi
      else if x < 0 \<and> y < 0 then arctan (y / x) - pi
      else if 0 < y then pi / 2
      else if y < 0 then - (pi / 2)
      else 0)"

text \<open>\<open>np.arctan2\<close>, with the values IEEE 754 gives it at the infinities.\<close>

fun arctan2 :: "fval \<Rightarrow> fval \<Rightarrow> fval" where
  "arctan2 NaN x = NaN"
| "arctan2 y NaN = NaN"
| "arctan2 (Fin y) (Fin x) = Fin (atan2 y x)"
| "arctan2 (Fin y) PInf = Fin 0"
| "arctan2 (Fin y) NInf = (if 0 \<le> y then Fin pi else Fin (- pi))"
| "arctan2 PInf (Fin x) = Fin (pi / 2)"
| "arctan2 NInf (Fin x) = Fin (- (pi / 2))"
| "arctan2 PInf PInf = Fin (pi / 4)"
| "arctan2 PInf NInf = Fin (3 * pi / 4)"
| "arctan2 NInf PInf = Fin (- (pi / 4))"
| "arctan2 NInf NInf = Fin (- (3 * pi / 4))"

subsection \<open>The linear interpolant of the library\<close>

text \<open>
  \<open>interpolate.interp1d(x, y, kind="linear", fill_value="extrapolate")\<close>: the
  constructor sorts the points by \<open>x\<close> with a stable sort and asks for at least one
  point; it does not look for equal \<open>x\<close>. The object is the sorted points.
\<close>

definition interp1d :: "real list \<Rightarrow> real list \<Rightarrow> py_error + (real \<times> real) list" where
  "interp1d xs ys =
     (let pts = sort_key fst (zip xs ys)
      in if length pts < 1
         then Inl (ValueError ''x and y arrays must have at least 1 entries'')
         else Inr pts)"

text \<open>\<open>np.searchsorted(xs, v)\<close> on a sorted array: the first place where \<open>v\<close> fits.\<close>

definition searchsorted :: "real list \<Rightarrow> real \<Rightarrow> int" where
  "searchsorted xs v = int (length (takeWhile (\<lambda>u. u < v) xs))"

text \<open>\<open>a.clip(lo, hi)\<close>, which is \<open>minimum(maximum(a, lo), hi)\<close>.\<close>

definition clip :: "int \<Rightarrow> int \<Rightarrow> int \<Rightarrow> int" where
  "clip a lo hi = min (max a lo) hi"

text \<open>
  Indexing an array by an integer array: a negative index counts from the end. The
  indices the interpolant makes are in range for an array that is not empty.
\<close>

definition take_at :: "real list \<Rightarrow> int \<Rightarrow> real" where
  "take_at xs i = xs ! nat (if i < 0 then i + int (length xs) else i)"

text \<open>Calling the interpolant (the library's \<open>_call_linear\<close>; no bounds check when extrapolating).\<close>

definition call_linear :: "(real \<times> real) list \<Rightarrow> real \<Rightarrow> fval" where
  "call_linear pts x_new =
     (let x = map fst pts;
          y = map snd pts;
          x_new_indices = clip (searchsorted x x_new) 1 (int (length x) - 1);
          lo = x_new_indices - 1;
          hi = x_new_indices;
          x_lo = take_at x lo;
          x_hi = take_at x hi;
          y_lo = take_at y lo;
          y_hi = take_at y hi;
          slope = fdiv (fsub y_hi y_lo) (fsub x_hi x_lo)
      in fadd (fmul slope (fsub x_new x_lo)) y_lo)"

subsection \<open>\<open>create_interpolation_function\<close>\<close>

definition get_heading :: "(real \<times> real) list \<Rightarrow> (real \<times> real) list \<Rightarrow> real \<Rightarrow> fval" where
  "get_heading f_x f_y screen_value =
     (let interp_x = call_linear f_x screen_value;
          interp_y = call_linear f_y screen_value
      in arctan2 interp_y interp_x)"

text \<open>
  The argument is the table read from \<open>screen2heading_path\<close>, or
  \<open>SCREEN2HEADING_DATA\<close> when no path was given: its rows of \<open>screen\<close> and
  \<open>heading\<close>.
\<close>

definition create_interpolation_function :: "(real \<times> real) list \<Rightarrow> py_error + (real \<Rightarrow> fval)" where
  "create_interpolation_function screen2heading =
     (let screen_values = map fst screen2heading;
          heading_values = map snd screen2heading;
          x = map cos heading_values;
          y = map sin heading_values
      in case interp1d screen_values x of
           Inl e \<Rightarrow> Inl e
         | Inr f_x \<Rightarrow>
             (case interp1d screen_values y of
                Inl e \<Rightarrow> Inl e
              | Inr f_y \<Rightarrow> Inr (get_heading f_x f_y)))"

text \<open>
  The use \<open>main\<close> makes of it: the function is built once, from the table, and then
  called on a screen position.
\<close>

definition evaluate :: "(real \<times> real) list \<Rightarrow> real \<Rightarrow> py_error + fval" where
  "evaluate screen2heading screen_value =
     (case create_interpolation_function screen2heading of
        Inl e \<Rightarrow> Inl e
      | Inr get_heading_func \<Rightarrow> Inr (get_heading_func screen_value))"

section \<open>Files, archives and the console\<close>

text \<open>
  A row of a stimulus table, as \<open>DataFrame.iterrows\<close> yields it: a series indexed by
  the column names. \<open>name in row\<close> tests the index, \<open>row[name]\<close> raises
  \<open>KeyError\<close> for a name that is not in it.
\<close>

type_synonym row = "string \<rightharpoonup> real"

type_synonym dataframe = "row list"

text \<open>
  An archive maps the names of its members (\<open>z.namelist()\<close>) to what
  \<open>pd.read_csv\<close> makes of each: a table, or an exception with its message. A store
  maps a path or URL to what \<open>open_filename_or_url\<close> followed by
  \<open>zipfile.ZipFile\<close> makes of it: an archive, or an exception with its message.
\<close>

type_synonym archive = "string \<rightharpoonup> (string + dataframe)"

type_synonym store = "string \<Rightarrow> (string + archive)"

text \<open>
  A line of an output file: the header text, or the three formatted values of a data
  row (how Python prints a number is not modelled).
\<close>

datatype line = Text string | Row real real fval

record world =
  files :: "string \<rightharpoonup> line list"
  stdout :: "string list"

definition print :: "string \<Rightarrow> world \<Rightarrow> world" where
  "print msg w = w\<lparr>stdout := stdout w @ [msg]\<rparr>"

text \<open>\<open>initialize_csv_writer\<close>: mode \<open>"w"\<close> truncates or creates the file.\<close>

definition initialize_csv_writer :: "string \<Rightarrow> world \<Rightarrow> string \<times> world" where
  "initialize_csv_writer filename w =
     (filename, w\<lparr>files := (files w)(filename \<mapsto> [Text ''obj_id,frame,stim_heading''])\<rparr>)"

text \<open>\<open>write_to_csv\<close>: mode \<open>"a"\<close> appends, creating the file when it is absent.\<close>

definition write_to_csv :: "string \<Rightarrow> real \<Rightarrow> real \<Rightarrow> fval \<Rightarrow> world \<Rightarrow> world" where
  "write_to_csv filename obj_id frame stim_heading w =
     w\<lparr>files := (files w)(filename \<mapsto>
        (case files w filename of None \<Rightarrow> [] | Some ls \<Rightarrow> ls) @ [Row obj_id frame stim_heading])\<rparr>"

subsection \<open>Path functions\<close>

text \<open>\<open>os.path.basename\<close> (POSIX): what follows the last slash.\<close>

definition basename :: "string \<Rightarrow> string" where
  "basename p = rev (takeWhile (\<lambda>c. c \<noteq> CHR ''/'') (rev p))"

text \<open>\<open>s.split(".")[0]\<close>: what precedes the first dot.\<close>

definition split_dot_0 :: "string \<Rightarrow> string" where
  "split_dot_0 s = takeWhile (\<lambda>c. c \<noteq> CHR ''.'') s"

text \<open>\<open>os.path.join\<close> (POSIX) of two components.\<close>

definition path_join :: "string \<Rightarrow> string \<Rightarrow> string" where
  "path_join a b =
     (if b \<noteq> [] \<and> hd b = CHR ''/'' then b
      else if a = [] \<or> last a = CHR ''/'' then a @ b
      else a @ ''/'' @ b)"

definition output_file_of :: "string \<Rightarrow> string \<Rightarrow> string" where
  "output_file_of braidz_path output_path =
     path_join output_path (split_dot_0 (basename braidz_path) @ ''.csv'')"

section \<open>Processing one archive\<close>

text \<open>
  The \<open>try\<close> block of \<open>process_braidz_file\<close>: the table that was read, or the
  message printed before \<open>return False\<close>.
\<close>

definition read_member :: "string \<Rightarrow> (string + dataframe) \<Rightarrow> string + dataframe" where
  "read_member braidz_path m =
     (case m of
        Inl e \<Rightarrow> Inl (''Error reading '' @ braidz_path @ '': '' @ e)
      | Inr stim \<Rightarrow> Inr stim)"

definition read_stim :: "store \<Rightarrow> string \<Rightarrow> string + dataframe" where
  "read_stim st braidz_path =
     (case st braidz_path of
        Inl e \<Rightarrow> Inl (''Error reading '' @ braidz_path @ '': '' @ e)
      | Inr z \<Rightarrow>
          (case z ''stim.csv'' of
             Some m \<Rightarrow> read_member braidz_path m
           | None \<Rightarrow>
               (case z ''opto.csv'' of
                  Some m \<Rightarrow> read_member braidz_path m
                | None \<Rightarrow> Inl (''No stim or opto data found in '' @ braidz_path))))"

definition getitem :: "row \<Rightarrow> string \<Rightarrow> py_error + real" where
  "getitem r name = (case r name of None \<Rightarrow> Inl (KeyError name) | Some v \<Rightarrow> Inr v)"

text \<open>
  The body of the row loop up to the call of \<open>write_to_csv\<close>: the three values to
  write, or the exception raised.
\<close>

definition row_values :: "(real \<Rightarrow> fval) \<Rightarrow> row \<Rightarrow> py_error + (real \<times> real \<times> fval)" where
  "row_values get_heading_func r =
     (case getitem r ''obj_id'' of
        Inl e \<Rightarrow> Inl e
      | Inr obj_id \<Rightarrow>
          (case getitem r ''frame'' of
             Inl e \<Rightarrow> Inl e
           | Inr frame \<Rightarrow>
               (case (if r ''stim_position_screen'' = None
                      then getitem r ''heading''
                      else getitem r ''stim_position_screen'') of
                  Inl e \<Rightarrow> Inl e
                | Inr stim_heading \<Rightarrow> Inr (obj_id, frame, get_heading_func stim_heading))))"

fun write_rows :: "(real \<Rightarrow> fval) \<Rightarrow> string \<Rightarrow> row list \<Rightarrow> world \<Rightarrow> (py_error + unit) \<times> world" where
  "write_rows get_heading_func csv_file [] w = (Inr (), w)"
| "write_rows get_heading_func csv_file (r # rs) w =
     (case row_values get_heading_func r of
        Inl e \<Rightarrow> (Inl e, w)
      | Inr (obj_id, frame, stim_heading) \<Rightarrow>
          write_rows get_heading_func csv_file rs (write_to_csv csv_file obj_id frame stim_heading w))"

definition process_braidz_file ::
  "store \<Rightarrow> string \<Rightarrow> string \<Rightarrow> (real \<Rightarrow> fval) \<Rightarrow> world \<Rightarrow> (py_error + bool) \<times> world" where
  "process_braidz_file st braidz_path output_path get_heading_func w =
     (case read_stim st braidz_path of
        Inl msg \<Rightarrow> (Inr False, print msg w)
      | Inr stim \<Rightarrow>
          (let output_file = output_file_of braidz_path output_path;
               (csv_file, w1) = initialize_csv_writer output_file w
           in case write_rows get_heading_func csv_file stim w1 of
                (Inl e, w2) \<Rightarrow> (Inl e, w2)
              | (Inr u, w2) \<Rightarrow>
                  (Inr True,
                   print (''Interpolated '' @ braidz_path @ '' to '' @ output_file) w2)))"

text \<open>
  The loop of \<open>main\<close> over the archives found: the value each call returns is dropped,
  an exception leaves the loop.
\<close>

fun process_all ::
  "store \<Rightarrow> string list \<Rightarrow> string \<Rightarrow> (real \<Rightarrow> fval) \<Rightarrow> world \<Rightarrow> (py_error + unit) \<times> world" where
  "process_all st [] output_path get_heading_func w = (Inr (), w)"
| "process_all st (braidz_file # rest) output_path get_heading_func w =
     (case process_braidz_file st braidz_file output_path get_heading_func w of
        (Inl e, w') \<Rightarrow> (Inl e, w')
      | (Inr b, w') \<Rightarrow> process_all st rest output_path get_heading_func w')"

text \<open>
  The name the interface description gives the output file: the basename of the archive
  with its extension (the last dot and what follows it) removed, and \<open>.csv\<close>
  appended. It is compared with \<open>output_file_of\<close> below.
\<close>

definition without_extension :: "string \<Rightarrow> string" where
  "without_extension s =
     (if CHR ''.'' \<in> set s
      then rev (tl (dropWhile (\<lambda>c. c \<noteq> CHR ''.'') (rev s)))
      else s)"

definition described_output_file :: "string \<Rightarrow> string \<Rightarrow> string" where
  "described_output_file braidz_path output_path =
     path_join output_path (without_extension (basename braidz_path) @ ''.csv'')"

subsection \<open>Example inputs\<close>

definition empty_world :: world where
  "empty_world = \<lparr>files = Map.empty, stdout = []\<rparr>"

text \<open>An archive with no table in it, under any path.\<close>

definition bare_store :: store where
  "bare_store = (\<lambda>p. Inr Map.empty)"

text \<open>A table of one row \<open>obj_id=1, frame=10, heading=1.0\<close>.\<close>

definition heading_row :: row where
  "heading_row = [''obj_id'' \<mapsto> 1, ''frame'' \<mapsto> 10, ''heading'' \<mapsto> 1]"

text \<open>A row \<open>obj_id=1, frame=10\<close> with neither source column.\<close>

definition malformed_row :: row where
  "malformed_row = [''obj_id'' \<mapsto> 1, ''frame'' \<mapsto> 10]"

definition screen_row :: row where
  "screen_row = [''obj_id'' \<mapsto> 1, ''frame'' \<mapsto> 11, ''stim_position_screen'' \<mapsto> 320]"

text \<open>Every path holds the two tables given, as \<open>stim.csv\<close> and \<open>opto.csv\<close>.\<close>

definition both_store :: "dataframe \<Rightarrow> dataframe \<Rightarrow> store" where
  "both_store stim opto = (\<lambda>p. Inr [''stim.csv'' \<mapsto> Inr stim, ''opto.csv'' \<mapsto> Inr opto])"

text \<open>
  \<open>a.braidz\<close> holds a \<open>stim.csv\<close> whose only row is malformed, every other path
  a \<open>stim.csv\<close> with one good row.
\<close>

definition mixed_store :: store where
  "mixed_store =
     (\<lambda>p. if p = ''a.braidz'' then Inr [''stim.csv'' \<mapsto> Inr [malformed_row]]
          else Inr [''stim.csv'' \<mapsto> Inr [screen_row]])"

text \<open>\<open>a.braidz\<close> cannot be opened, every other path holds a \<open>stim.csv\<close> with one good row.\<close>

definition broken_store :: store where
  "broken_store =
     (\<lambda>p. if p = ''a.braidz'' then Inl ''File is not a zip file''
          else Inr [''stim.csv'' \<mapsto> Inr [screen_row]])"

text \<open>\<open>opto.csv\<close> with the one row \<open>heading_row\<close>, under any path.\<close>

definition heading_store :: store where
  "heading_store = (\<lambda>p. Inr [''opto.csv'' \<mapsto> Inr [heading_row]])"

text \<open>Two entries at the same screen position; one entry; headings beyond \<open>pi\<close>.\<close>

definition dup_table :: "(real \<times> real) list" where
  "dup_table = [(0, 0), (0, 1)]"

definition single_table :: "(real \<times> real) list" where
  "single_table = [(0, 1)]"


text \<open>The float \<open>1.7e308\<close>, and two entries at the screen positions \<open>-1.7e308\<close> and \<open>1.7e308\<close>.\<close>

definition far :: real where
  "far = 17 * 10 ^ 307"

definition far_table :: "(real \<times> real) list" where
  "far_table = [(- far, 0), (far, 1)]"

text \<open>
  A bound far below the overflow threshold, and a table whose screen positions are at
  most \<open>B\<close> in magnitude and, where they differ, at least \<open>g\<close> apart, with
  \<open>B\<close> and \<open>g\<close> such that neither a difference of two positions nor a slope
  passes the bound.
\<close>

definition safe_bound :: real where
  "safe_bound = 10 ^ 300"

definition well_spaced :: "real \<Rightarrow> real \<Rightarrow> (real \<times> real) list \<Rightarrow> bool" where
  "well_spaced B g t \<longleftrightarrow>
     0 < g \<and> 2 * B \<le> safe_bound \<and> 2 / g \<le> safe_bound
     \<and> (\<forall>p \<in> set t. \<bar>fst p\<bar> \<le> B)
     \<and> (\<forall>p \<in> set t. \<forall>q \<in> set t. fst p \<noteq> fst q \<longrightarrow> g \<le> \<bar>fst p - fst q\<bar>)"

section \<open>The interpolation function: properties\<close>

subsection \<open>The arctangent\<close>


lemma pi_ge_three: "3 \<le> pi"
proof -
  have "sin (pi / 6) \<le> pi / 6" by (rule sin_x_le_x) simp
  then show ?thesis by (simp add: sin_30)
qed

lemma atan2_range: "- pi < atan2 y x \<and> atan2 y x \<le> pi"
proof -
  have b: "- (pi / 2) < arctan (y / x)" "arctan (y / x) < pi / 2"
    by (rule arctan_lbound, rule arctan_ubound)
  have p: "0 < pi" by (rule pi_gt_zero)
  consider "0 < x" | "x < 0" "0 \<le> y" | "x < 0" "y < 0" | "x = 0"
    by linarith
  then show ?thesis
  proof cases
    case 1
    then have "atan2 y x = arctan (y / x)" by (simp add: atan2_def)
    with b p show ?thesis by linarith
  next
    case 2
    then have "y / x \<le> 0" by (simp add: divide_nonneg_neg)
    then have "arctan (y / x) \<le> 0" by (simp add: arctan_le_zero_iff)
    moreover have "atan2 y x = arctan (y / x) + pi" using 2 by (simp add: atan2_def)
    ultimately show ?thesis using b p by linarith
  next
    case 3
    then have "0 < y / x" by (simp add: divide_neg_neg)
    then have "0 < arctan (y / x)" by (simp add: zero_less_arctan_iff)
    moreover have "atan2 y x = arctan (y / x) - pi" using 3 by (simp add: atan2_def)
    ultimately show ?thesis using b p by linarith
  next
    case 4
    then have "atan2 y x = pi / 2 \<or> atan2 y x = - (pi / 2) \<or> atan2 y x = 0"
      by (simp add: atan2_def)
    with p show ?thesis by linarith
  qed
qed







subsection \<open>Sorting the table\<close>

lemma zip_map_fst_snd:
  "zip (map fst t) (map f (map snd t)) = map (\<lambda>p. (fst p, f (snd p))) t"
  by (induction t) simp_all

lemma insort_key_fst_map:
  "insort_key fst (fst a, f (snd a)) (map (\<lambda>p. (fst p, f (snd p))) ps) =
   map (\<lambda>p. (fst p, f (snd p))) (insort_key fst a ps)"
  by (induction ps) simp_all

lemma sort_key_fst_map:
  "sort_key fst (map (\<lambda>p. (fst p, f (snd p))) t) = map (\<lambda>p. (fst p, f (snd p))) (sort_key fst t)"
  by (induction t) (simp_all add: insort_key_fst_map)

lemma interp1d_table:
  "t \<noteq> [] \<Longrightarrow>
   interp1d (map fst t) (map f (map snd t)) = Inr (map (\<lambda>p. (fst p, f (snd p))) (sort_key fst t))"
proof -
  assume "t \<noteq> []"
  then have "length (sort_key fst (zip (map fst t) (map f (map snd t)))) \<noteq> 0"
    by simp
  then show ?thesis
    unfolding interp1d_def Let_def zip_map_fst_snd sort_key_fst_map
    by (simp del: map_map)
qed

lemma create_interpolation_function_table:
  "t \<noteq> [] \<Longrightarrow>
   create_interpolation_function t =
     Inr (get_heading (map (\<lambda>p. (fst p, cos (snd p))) (sort_key fst t))
                      (map (\<lambda>p. (fst p, sin (snd p))) (sort_key fst t)))"
proof -
  assume ne: "t \<noteq> []"
  show ?thesis
    unfolding create_interpolation_function_def Let_def
      interp1d_table [OF ne, of cos] interp1d_table [OF ne, of sin]
    by (simp only: sum.case)
qed

lemma strict_sorted_table:
  "distinct (map fst t) \<Longrightarrow> sorted_wrt (<) (map fst (sort_key fst t))"
proof -
  assume d: "distinct (map fst t)"
  then have "distinct (map fst (sort_key fst t))"
    by (simp add: distinct_map)
  then show ?thesis by (simp add: strict_sorted_iff)
qed

subsection \<open>Results that do not overflow\<close>

lemma overflow_threshold_large: "safe_bound < overflow_threshold"
  by (simp add: overflow_threshold_def safe_bound_def)

lemma far_overflows: "overflow_threshold \<le> far - (- far)"
  by (simp add: overflow_threshold_def far_def)

lemma far_positive: "0 < far"
  by (simp add: far_def)

lemma arctan2_NaN_right: "arctan2 y NaN = NaN"
  by (cases y) simp_all

lemma fl_Fin: "\<bar>r\<bar> \<le> safe_bound \<Longrightarrow> fl r = Fin r"
proof -
  assume "\<bar>r\<bar> \<le> safe_bound"
  then have "r < overflow_threshold" "- overflow_threshold < r"
    using overflow_threshold_large by linarith+
  then show ?thesis by (simp add: fl_def)
qed

lemma fl_zero: "fl 0 = Fin 0"
  by (rule fl_Fin) (simp add: safe_bound_def)

lemma fl_unit: "\<bar>r\<bar> \<le> 2 \<Longrightarrow> fl r = Fin r"
proof -
  assume "\<bar>r\<bar> \<le> 2"
  moreover have "(2::real) \<le> safe_bound" by (simp add: safe_bound_def)
  ultimately show ?thesis by (intro fl_Fin) linarith
qed

lemma well_spaced_fst:
  "fst ` set t' = fst ` set t \<Longrightarrow> well_spaced B g t' = well_spaced B g t"
proof -
  assume e: "fst ` set t' = fst ` set t"
  have key: "well_spaced B g u \<longleftrightarrow>
      0 < g \<and> 2 * B \<le> safe_bound \<and> 2 / g \<le> safe_bound
      \<and> (\<forall>x \<in> fst ` set u. \<bar>x\<bar> \<le> B)
      \<and> (\<forall>x \<in> fst ` set u. \<forall>y \<in> fst ` set u. x \<noteq> y \<longrightarrow> g \<le> \<bar>x - y\<bar>)" for u
    by (simp add: well_spaced_def)
  show ?thesis unfolding key e ..
qed

lemma well_spaced_table:
  "well_spaced B g (map (\<lambda>p. (fst p, f (snd p))) (sort_key fst t)) = well_spaced B g t"
  by (rule well_spaced_fst) (simp add: image_image)

subsection \<open>The interpolant on well spaced positions\<close>


text \<open>The segment the interpolant picks, for strictly increasing positions.\<close>

lemma call_linear_indices:
  assumes "sorted_wrt (<) (map fst pts)" and "2 \<le> length pts"
    and "h = nat (clip (searchsorted (map fst pts) s) 1 (int (length pts) - 1))"
  shows "1 \<le> h \<and> h < length pts \<and> fst (pts ! (h - 1)) < fst (pts ! h)
         \<and> call_linear pts s =
             fadd (fmul (fdiv (fsub (snd (pts ! h)) (snd (pts ! (h - 1))))
                              (fsub (fst (pts ! h)) (fst (pts ! (h - 1)))))
                        (fsub s (fst (pts ! (h - 1)))))
                  (snd (pts ! (h - 1)))"
proof -
  define c where "c = clip (searchsorted (map fst pts) s) 1 (int (length (map fst pts)) - 1)"
  have cl: "call_linear pts s =
      fadd (fmul (fdiv (fsub (take_at (map snd pts) c) (take_at (map snd pts) (c - 1)))
                       (fsub (take_at (map fst pts) c) (take_at (map fst pts) (c - 1))))
                 (fsub s (take_at (map fst pts) (c - 1))))
           (take_at (map snd pts) (c - 1))"
    unfolding call_linear_def c_def Let_def ..
  have c: "1 \<le> c" "c \<le> int (length pts) - 1"
    using assms(2) by (simp_all add: c_def clip_def)
  have hc: "h = nat c"
    using assms(3) by (simp add: c_def)
  have h: "1 \<le> h" "h < length pts"
    using c hc by auto
  have t1: "take_at (map fst pts) c = fst (pts ! h)" "take_at (map snd pts) c = snd (pts ! h)"
    using c h hc by (simp_all add: take_at_def)
  have "nat (c - 1) = h - 1" "\<not> c - 1 < 0"
    using c hc by auto
  then have t2: "take_at (map fst pts) (c - 1) = fst (pts ! (h - 1))"
    "take_at (map snd pts) (c - 1) = snd (pts ! (h - 1))"
    using h by (simp_all add: take_at_def)
  have "map fst pts ! (h - 1) < map fst pts ! h"
    using sorted_wrt_nth_less [OF assms(1), of "h - 1" h] h by simp
  then have lt: "fst (pts ! (h - 1)) < fst (pts ! h)"
    using h by simp
  show ?thesis
    using h lt unfolding cl t1 t2 by simp
qed

text \<open>The slope of a segment between two well spaced points with ordinates in \<open>[-1, 1]\<close>.\<close>

lemma segment_slope:
  assumes "well_spaced B g pts" and "\<forall>p \<in> set pts. \<bar>snd p\<bar> \<le> 1"
    and "a \<in> set pts" and "c \<in> set pts" and "fst a < fst c"
  shows "fsub (fst c) (fst a) = Fin (fst c - fst a)"
    and "fdiv (fsub (snd c) (snd a)) (fsub (fst c) (fst a)) = Fin ((snd c - snd a) / (fst c - fst a))"
    and "\<bar>(snd c - snd a) / (fst c - fst a)\<bar> \<le> 2 / g"
    and "\<bar>fst c - fst a\<bar> \<le> 2 * B"
proof -
  have g: "0 < g" and B: "2 * B \<le> safe_bound" and G: "2 / g \<le> safe_bound"
    using assms(1) by (simp_all add: well_spaced_def)
  have ba: "\<bar>fst a\<bar> \<le> B" and bc: "\<bar>fst c\<bar> \<le> B"
    using assms(1,3,4) by (simp_all add: well_spaced_def)
  have "\<forall>p \<in> set pts. \<forall>q \<in> set pts. fst p \<noteq> fst q \<longrightarrow> g \<le> \<bar>fst p - fst q\<bar>"
    using assms(1) by (simp add: well_spaced_def)
  moreover have "fst a \<noteq> fst c" using assms(5) by simp
  ultimately have "g \<le> \<bar>fst a - fst c\<bar>"
    using assms(3,4) by blast
  then have gap: "g \<le> fst c - fst a" using assms(5) by linarith
  show dx: "\<bar>fst c - fst a\<bar> \<le> 2 * B" using ba bc by linarith
  then show fx: "fsub (fst c) (fst a) = Fin (fst c - fst a)"
    unfolding fsub_def using B by (intro fl_Fin) linarith
  have ya: "\<bar>snd a\<bar> \<le> 1" and yc: "\<bar>snd c\<bar> \<le> 1"
    using assms(2,3,4) by simp_all
  then have dy: "\<bar>snd c - snd a\<bar> \<le> 2" by linarith
  then have fy: "fsub (snd c) (snd a) = Fin (snd c - snd a)"
    unfolding fsub_def by (rule fl_unit)
  have "\<bar>snd c - snd a\<bar> / (fst c - fst a) \<le> 2 / g"
    using dy gap g by (intro frac_le) simp_all
  then show m: "\<bar>(snd c - snd a) / (fst c - fst a)\<bar> \<le> 2 / g"
    using gap g by simp
  then have "fl ((snd c - snd a) / (fst c - fst a)) = Fin ((snd c - snd a) / (fst c - fst a))"
    using G by (intro fl_Fin) linarith
  then show "fdiv (fsub (snd c) (snd a)) (fsub (fst c) (fst a)) = Fin ((snd c - snd a) / (fst c - fst a))"
    unfolding fx fy using gap g by simp
qed

lemma call_linear_value:
  assumes "sorted_wrt (<) (map fst pts)" and "2 \<le> length pts"
    and "well_spaced B g pts" and "\<forall>p \<in> set pts. \<bar>snd p\<bar> \<le> 1"
    and "\<bar>s\<bar> \<le> B" and "4 * B / g + 1 \<le> safe_bound"
    and "h = nat (clip (searchsorted (map fst pts) s) 1 (int (length pts) - 1))"
  shows "call_linear pts s =
           Fin ((snd (pts ! h) - snd (pts ! (h - 1))) / (fst (pts ! h) - fst (pts ! (h - 1)))
                  * (s - fst (pts ! (h - 1))) + snd (pts ! (h - 1)))"
proof -
  let ?a = "pts ! (h - 1)" and ?c = "pts ! h"
  let ?m = "(snd ?c - snd ?a) / (fst ?c - fst ?a)"
  have idx: "1 \<le> h" "h < length pts" "fst ?a < fst ?c"
    and cl: "call_linear pts s =
      fadd (fmul (fdiv (fsub (snd ?c) (snd ?a)) (fsub (fst ?c) (fst ?a))) (fsub s (fst ?a))) (snd ?a)"
    using call_linear_indices [OF assms(1,2,7)] by simp_all
  have a: "?a \<in> set pts" and c: "?c \<in> set pts" using idx by simp_all
  have g: "0 < g" and B: "2 * B \<le> safe_bound"
    using assms(3) by (simp_all add: well_spaced_def)
  have ba: "\<bar>fst ?a\<bar> \<le> B" using assms(3) a by (simp add: well_spaced_def)
  have ya: "\<bar>snd ?a\<bar> \<le> 1" using assms(4) a by simp
  have B0: "0 \<le> B" using ba by linarith
  have sl: "fdiv (fsub (snd ?c) (snd ?a)) (fsub (fst ?c) (fst ?a)) = Fin ?m"
    and m: "\<bar>?m\<bar> \<le> 2 / g"
    using segment_slope [OF assms(3,4) a c idx(3)] by simp_all
  have dx: "\<bar>s - fst ?a\<bar> \<le> 2 * B" using assms(5) ba by linarith
  then have fdx: "fsub s (fst ?a) = Fin (s - fst ?a)"
    unfolding fsub_def using B by (intro fl_Fin) linarith
  have "\<bar>?m\<bar> * \<bar>s - fst ?a\<bar> \<le> (2 / g) * (2 * B)"
    using m dx g B0 by (intro mult_mono) simp_all
  then have pr: "\<bar>?m * (s - fst ?a)\<bar> \<le> 4 * B / g"
    by (simp add: abs_mult)
  then have fpr: "fl (?m * (s - fst ?a)) = Fin (?m * (s - fst ?a))"
    using assms(6) by (intro fl_Fin) linarith
  have "\<bar>?m * (s - fst ?a) + snd ?a\<bar> \<le> 4 * B / g + 1"
    using pr ya by linarith
  then have fsum: "fl (?m * (s - fst ?a) + snd ?a) = Fin (?m * (s - fst ?a) + snd ?a)"
    using assms(6) by (intro fl_Fin) linarith
  show ?thesis
    unfolding cl sl fdx by (simp only: fmul.simps fadd.simps fpr fsum)
qed


subsection \<open>Building and calling the function\<close>

lemma evaluate_table:
  "t \<noteq> [] \<Longrightarrow>
   evaluate t s =
     Inr (arctan2 (call_linear (map (\<lambda>p. (fst p, sin (snd p))) (sort_key fst t)) s)
                  (call_linear (map (\<lambda>p. (fst p, cos (snd p))) (sort_key fst t)) s))"
  by (simp add: evaluate_def create_interpolation_function_table get_heading_def)

lemma evaluate_finite:
  assumes "2 \<le> length t" and "distinct (map fst t)" and "well_spaced B g t"
    and "\<bar>s\<bar> \<le> B" and "4 * B / g + 1 \<le> safe_bound"
  shows "\<exists>y x. evaluate t s = Inr (Fin (atan2 y x))"
proof -
  let ?fx = "map (\<lambda>p. (fst p, cos (snd p))) (sort_key fst t)"
  let ?fy = "map (\<lambda>p. (fst p, sin (snd p))) (sort_key fst t)"
  have ne: "t \<noteq> []" using assms(1) by auto
  have sx: "sorted_wrt (<) (map fst ?fx)" and sy: "sorted_wrt (<) (map fst ?fy)"
    using strict_sorted_table [OF assms(2)] by (simp_all add: comp_def)
  have l: "2 \<le> length ?fx" "2 \<le> length ?fy" using assms(1) by simp_all
  have wx: "well_spaced B g ?fx" and wy: "well_spaced B g ?fy"
    using assms(3) by (simp_all only: well_spaced_table)
  have ux: "\<forall>p \<in> set ?fx. \<bar>snd p\<bar> \<le> 1" and uy: "\<forall>p \<in> set ?fy. \<bar>snd p\<bar> \<le> 1"
    by auto
  obtain x where x: "call_linear ?fx s = Fin x"
    using call_linear_value [OF sx l(1) wx ux assms(4,5) refl] by blast
  obtain y where y: "call_linear ?fy s = Fin y"
    using call_linear_value [OF sy l(2) wy uy assms(4,5) refl] by blast
  show ?thesis
    unfolding evaluate_table [OF ne] x y by auto
qed


lemma default_well_spaced: "640 \<le> B \<Longrightarrow> 2 * B \<le> safe_bound \<Longrightarrow> well_spaced B 80 SCREEN2HEADING_DATA"
proof -
  assume "640 \<le> B" and "2 * B \<le> safe_bound"
  moreover have "2 / 80 \<le> safe_bound" by (simp add: safe_bound_def)
  ultimately show ?thesis
    by (simp add: well_spaced_def SCREEN2HEADING_DATA_def)
qed

text \<open>Tables on which the function returns NaN.\<close>

lemma call_linear_same_position:
  assumes "\<bar>y0\<bar> \<le> 1" and "\<bar>y1\<bar> \<le> 1"
  shows "call_linear [(0, y0), (0, y1)] 0 = NaN"
proof -
  have "fsub y1 y0 = Fin (y1 - y0)"
    unfolding fsub_def using assms by (intro fl_unit) linarith
  moreover have "fmul (fdiv (Fin (y1 - y0)) (Fin 0)) (Fin 0) = NaN"
    by simp
  ultimately show ?thesis
    by (simp add: call_linear_def searchsorted_def clip_def take_at_def fsub_def fl_zero Let_def)
qed

lemma evaluate_dup_table: "evaluate dup_table 0 = Inr NaN"
proof -
  have "call_linear [(0, cos 0), (0, cos 1)] 0 = NaN"
    by (rule call_linear_same_position) simp_all
  then show ?thesis
    by (simp add: evaluate_def dup_table_def create_interpolation_function_def interp1d_def
        get_heading_def arctan2_NaN_right Let_def)
qed

lemma evaluate_single: "evaluate [(x, h)] s = Inr NaN"
  by (simp add: evaluate_def create_interpolation_function_def interp1d_def
      get_heading_def call_linear_def searchsorted_def clip_def take_at_def fsub_def fl_zero Let_def)

lemma call_linear_far:
  assumes "\<bar>y0\<bar> \<le> 1" and "\<bar>y1\<bar> \<le> 1"
  shows "call_linear [(- far, y0), (far, y1)] far = NaN"
proof -
  have d: "fsub far (- far) = PInf"
    using far_overflows by (simp add: fsub_def fl_def)
  have y: "fsub y1 y0 = Fin (y1 - y0)"
    unfolding fsub_def using assms by (intro fl_unit) linarith
  have i: "clip (searchsorted [- far, far] far) 1 1 = 1"
    using far_positive by (simp add: searchsorted_def clip_def)
  have "call_linear [(- far, y0), (far, y1)] far =
      fadd (fmul (fdiv (fsub y1 y0) (fsub far (- far))) (fsub far (- far))) y0"
    by (simp add: call_linear_def i take_at_def Let_def)
  then show ?thesis
    unfolding d y by simp
qed

lemma evaluate_far_table: "evaluate far_table far = Inr NaN"
proof -
  have s: "sort_key fst far_table = far_table"
    using far_positive by (simp add: far_table_def)
  have "call_linear [(- far, cos 0), (far, cos 1)] far = NaN"
    by (rule call_linear_far) simp_all
  moreover have ne: "far_table \<noteq> []"
    by (simp add: far_table_def)
  ultimately show ?thesis
    unfolding evaluate_table [OF ne] s
    by (simp add: far_table_def arctan2_NaN_right)
qed

text \<open>The default table at the screen position 1.\<close>

lemma sin_one_lower: "19 / 24 \<le> sin (1::real)"
proof -
  have "\<bar>sin (1::real) - (\<Sum>m<4. sin_coeff m * 1 ^ m)\<bar> \<le> inverse (fact 4) * \<bar>1\<bar> ^ 4"
    by (rule Maclaurin_sin_bound)
  moreover have "(\<Sum>m<4. sin_coeff m * (1::real) ^ m) = 5 / 6"
    by (simp add: sin_coeff_def lessThan_nat_numeral lessThan_Suc fact_numeral)
  moreover have "inverse (fact 4) * \<bar>1::real\<bar> ^ 4 = 1 / 24"
    by (simp add: eval_nat_numeral)
  ultimately show ?thesis by (simp add: abs_le_iff)
qed

lemma cos_two_upper: "cos (2::real) \<le> - (1 / 4)"
proof -
  have "cos (2 * (1::real)) = 1 - 2 * (sin 1)\<^sup>2" by (rule cos_double_sin)
  moreover have "(19 / 24)\<^sup>2 \<le> (sin (1::real))\<^sup>2"
    using sin_one_lower by (intro power_mono) simp_all
  ultimately show ?thesis by (simp add: power2_eq_square)
qed

lemma cos_first_heading: "cos (2.3513283485530456::real) \<le> - (1 / 4)"
proof -
  have "cos (2.3513283485530456::real) \<le> cos 2"
    using pi_ge_three by (intro cos_monotone_0_pi_le) simp_all
  with cos_two_upper show ?thesis by linarith
qed

lemma atan2_neg_x: "x < 0 \<Longrightarrow> atan2 y x \<noteq> 1"
proof -
  assume x: "x < 0"
  have b: "- (pi / 2) < arctan (y / x)" "arctan (y / x) < pi / 2"
    by (rule arctan_lbound, rule arctan_ubound)
  show ?thesis
  proof (cases "0 \<le> y")
    case True
    then have "atan2 y x = arctan (y / x) + pi" using x by (simp add: atan2_def)
    with b pi_ge_three show ?thesis by linarith
  next
    case False
    then have "atan2 y x = arctan (y / x) - pi" using x by (simp add: atan2_def)
    with b pi_ge_three show ?thesis by linarith
  qed
qed

lemma evaluate_default_one: "\<exists>y x. x < 0 \<and> evaluate SCREEN2HEADING_DATA 1 = Inr (Fin (atan2 y x))"
proof -
  let ?fx = "map (\<lambda>p. (fst p, cos (snd p))) (sort_key fst SCREEN2HEADING_DATA)"
  let ?fy = "map (\<lambda>p. (fst p, sin (snd p))) (sort_key fst SCREEN2HEADING_DATA)"
  have d: "distinct (map fst SCREEN2HEADING_DATA)" and ne: "SCREEN2HEADING_DATA \<noteq> []"
    by (simp_all add: SCREEN2HEADING_DATA_def)
  have sx: "sorted_wrt (<) (map fst ?fx)" and sy: "sorted_wrt (<) (map fst ?fy)"
    using strict_sorted_table [OF d] by (simp_all add: comp_def)
  have l: "2 \<le> length ?fx" "2 \<le> length ?fy" by (simp_all add: SCREEN2HEADING_DATA_def)
  have w: "well_spaced 640 80 SCREEN2HEADING_DATA"
    by (rule default_well_spaced) (simp_all add: safe_bound_def)
  have wx: "well_spaced 640 80 ?fx" and wy: "well_spaced 640 80 ?fy"
    using w by (simp_all only: well_spaced_table)
  have ux: "\<forall>p \<in> set ?fx. \<bar>snd p\<bar> \<le> 1" and uy: "\<forall>p \<in> set ?fy. \<bar>snd p\<bar> \<le> 1"
    by auto
  have s: "\<bar>1::real\<bar> \<le> 640" and q: "4 * 640 / 80 + 1 \<le> safe_bound"
    by (simp_all add: safe_bound_def)
  have hx: "(1::nat) = nat (clip (searchsorted (map fst ?fx) 1) 1 (int (length ?fx) - 1))"
    and hy: "(1::nat) = nat (clip (searchsorted (map fst ?fy) 1) 1 (int (length ?fy) - 1))"
    by (simp_all add: SCREEN2HEADING_DATA_def searchsorted_def clip_def)
  have x: "call_linear ?fx 1 =
      Fin ((cos 1.2179812647799937 - cos 2.3513283485530456) / 80 + cos 2.3513283485530456)"
    using call_linear_value [OF sx l(1) wx ux s q hx] by (simp add: SCREEN2HEADING_DATA_def)
  obtain y where y: "call_linear ?fy 1 = Fin y"
    using call_linear_value [OF sy l(2) wy uy s q hy] by blast
  have c1: "cos (1.2179812647799937::real) \<le> 1" by simp
  have lin: "(a::real) \<le> 1 \<Longrightarrow> (b::real) \<le> - (1 / 4) \<Longrightarrow> (a - b) / 80 + b < 0" for a b
    by (simp add: field_simps)
  have "(cos 1.2179812647799937 - cos 2.3513283485530456) / 80 + cos (2.3513283485530456::real) < 0"
    using c1 cos_first_heading by (rule lin)
  moreover have "evaluate SCREEN2HEADING_DATA 1 =
      Inr (Fin (atan2 y ((cos 1.2179812647799937 - cos 2.3513283485530456) / 80 + cos 2.3513283485530456)))"
    unfolding evaluate_table [OF ne] x y by simp
  ultimately show ?thesis by blast
qed

subsection \<open>Claims about the interpolation function\<close>




text \<open>
  Claim C3, as amended. Take a table of at least two entries whose screen positions are
  pairwise distinct, at most \<open>B\<close> in magnitude and at least \<open>g\<close> apart, and an
  input of magnitude at most \<open>B\<close>, with \<open>2 * B\<close>, \<open>2 / g\<close> and
  \<open>4 * B / g + 1\<close> at most \<open>safe_bound\<close>, so that no intermediate result overflows.
  The function returns a finite value in \<open>(-pi, pi]\<close>, also far outside the table.
\<close>

theorem heading_in_range:
  assumes "2 \<le> length t" and "distinct (map fst t)" and "well_spaced B g t"
    and "\<bar>s\<bar> \<le> B" and "4 * B / g + 1 \<le> safe_bound"
  shows "\<exists>r. evaluate t s = Inr (Fin r) \<and> - pi < r \<and> r \<le> pi"
  using evaluate_finite [OF assms] atan2_range by auto

theorem heading_in_range_witness:
  "\<exists>r. evaluate SCREEN2HEADING_DATA 100000 = Inr (Fin r) \<and> - pi < r \<and> r \<le> pi"
proof -
  have l: "2 \<le> length SCREEN2HEADING_DATA" and d: "distinct (map fst SCREEN2HEADING_DATA)"
    by (simp_all add: SCREEN2HEADING_DATA_def)
  have w: "well_spaced 100000 80 SCREEN2HEADING_DATA"
    by (rule default_well_spaced) (simp_all add: safe_bound_def)
  have s: "\<bar>100000::real\<bar> \<le> 100000" and q: "4 * 100000 / 80 + 1 \<le> safe_bound"
    by (simp_all add: safe_bound_def)
  show ?thesis using heading_in_range [OF l d w s q] .
qed

text \<open>
  Claim C3 as stated fails: a table of two entries at the same screen position gives
  NaN there, and the table with the positions \<open>-1.7e308\<close> and \<open>1.7e308\<close>, which
  are distinct, gives NaN at the input \<open>1.7e308\<close>.
\<close>

theorem heading_in_range_counterexample:
  "2 \<le> length dup_table \<and> evaluate dup_table 0 = Inr NaN
   \<and> 2 \<le> length far_table \<and> distinct (map fst far_table)
   \<and> evaluate far_table far = Inr NaN"
  using far_positive
  by (simp add: evaluate_dup_table evaluate_far_table) (simp add: dup_table_def far_table_def)

text \<open>
  Claim C4, as amended. Building the function looks neither at the number of entries nor
  for equal screen positions: it fails for the empty table only (the interpolant's own
  \<open>ValueError\<close>) and succeeds for every other table. A table of one entry shows at
  evaluation, where every call returns NaN.
\<close>

theorem construction_rejects_only_empty:
  "(isl (create_interpolation_function t) \<longleftrightarrow> t = [])
   \<and> evaluate [(x, h)] s = Inr NaN"
proof -
  have "isl (create_interpolation_function [])"
    by (simp add: create_interpolation_function_def interp1d_def)
  moreover have "t \<noteq> [] \<Longrightarrow> \<not> isl (create_interpolation_function t)"
    by (simp add: create_interpolation_function_table)
  ultimately show ?thesis using evaluate_single by blast
qed

text \<open>
  Claim C4 as stated fails: a table of one entry and a table with a repeated screen
  position are both accepted.
\<close>

theorem construction_counterexample:
  "length single_table < 2 \<and> \<not> isl (create_interpolation_function single_table)
   \<and> \<not> distinct (map fst dup_table) \<and> \<not> isl (create_interpolation_function dup_table)"
  by (simp add: create_interpolation_function_table single_table_def dup_table_def)


section \<open>Processing archives: properties\<close>

lemma output_file_a: "output_file_of ''a.braidz'' ''out'' = ''out/a.csv''"
  by (simp add: output_file_of_def path_join_def split_dot_0_def basename_def)

lemma row_values_heading:
  "r ''obj_id'' = Some a \<Longrightarrow> r ''frame'' = Some b \<Longrightarrow> r ''stim_position_screen'' = None \<Longrightarrow>
   r ''heading'' = Some v \<Longrightarrow> row_values g r = Inr (a, b, g v)"
  by (simp add: row_values_def getitem_def)

text \<open>
  Claim C6. An archive that holds neither \<open>stim.csv\<close> nor \<open>opto.csv\<close>: the call
  returns \<open>False\<close> without raising, no file is created or changed, and the skip is
  printed.
\<close>

theorem missing_data_no_output:
  assumes "st braidz_path = Inr z" and "z ''stim.csv'' = None" and "z ''opto.csv'' = None"
  shows "\<exists>w'. process_braidz_file st braidz_path output_path get_heading_func w = (Inr False, w')
           \<and> files w' = files w
           \<and> stdout w' = stdout w @ [''No stim or opto data found in '' @ braidz_path]"
proof -
  have "read_stim st braidz_path = Inl (''No stim or opto data found in '' @ braidz_path)"
    using assms by (simp add: read_stim_def)
  then show ?thesis
    by (simp add: process_braidz_file_def print_def)
qed

theorem missing_data_no_output_witness:
  "bare_store ''a.braidz'' = Inr Map.empty
   \<and> (\<exists>w'. process_braidz_file bare_store ''a.braidz'' ''out'' Fin empty_world = (Inr False, w')
           \<and> files w' = files empty_world
           \<and> stdout w' = stdout empty_world @ [''No stim or opto data found in '' @ ''a.braidz''])"
proof -
  have h: "bare_store ''a.braidz'' = Inr Map.empty" by (simp add: bare_store_def)
  show ?thesis
    using h missing_data_no_output [of bare_store "''a.braidz''" Map.empty "''out''" Fin empty_world]
    by simp
qed



text \<open>
  Claim C10. A table that was read and has no rows: the call returns \<open>True\<close> and the
  output file holds the header line and nothing else.
\<close>

theorem no_rows_header_only:
  assumes "st braidz_path = Inr z"
    and "z ''stim.csv'' = Some (Inr []) \<or> (z ''stim.csv'' = None \<and> z ''opto.csv'' = Some (Inr []))"
  shows "\<exists>w'. process_braidz_file st braidz_path output_path get_heading_func w = (Inr True, w')
           \<and> files w' (output_file_of braidz_path output_path) =
               Some [Text ''obj_id,frame,stim_heading'']"
proof -
  have "read_stim st braidz_path = Inr []"
    using assms by (auto simp: read_stim_def read_member_def)
  then show ?thesis
    by (simp add: process_braidz_file_def initialize_csv_writer_def print_def Let_def)
qed

theorem no_rows_header_only_witness:
  "\<exists>w'. process_braidz_file (both_store [] [heading_row]) ''a.braidz'' ''out'' Fin empty_world
           = (Inr True, w')
        \<and> files w' ''out/a.csv'' = Some [Text ''obj_id,frame,stim_heading'']"
proof -
  have h: "both_store [] [heading_row] ''a.braidz'' =
             Inr [''stim.csv'' \<mapsto> Inr [], ''opto.csv'' \<mapsto> Inr [heading_row]]"
    by (simp add: both_store_def)
  have n: "output_file_of ''a.braidz'' ''out'' = ''out/a.csv''"
    by (simp add: output_file_of_def path_join_def split_dot_0_def basename_def)
  show ?thesis
    using h n no_rows_header_only [of "both_store [] [heading_row]" "''a.braidz''"
        "[''stim.csv'' \<mapsto> Inr [], ''opto.csv'' \<mapsto> Inr [heading_row]]" "''out''" Fin empty_world]
    by simp
qed

text \<open>
  A call that reads a table and finds the values of every row: it returns \<open>True\<close>,
  its output file holds the header and then one line for each row, in the order of the
  table, and no other file changes.
\<close>

lemma write_rows_lines:
  "map (row_values g) rs = map Inr vs \<Longrightarrow> files w f = Some ls \<Longrightarrow>
   write_rows g f rs w =
     (Inr (), w\<lparr>files := (files w)(f \<mapsto> ls @ map (\<lambda>(a, b, c). Row a b c) vs)\<rparr>)"
proof (induction rs arbitrary: vs w ls)
  case Nil
  then have "(files w)(f \<mapsto> ls) = files w" by (simp add: fun_upd_idem)
  with Nil show ?case by simp
next
  case (Cons r rs)
  then obtain v vs' where vs: "vs = v # vs'" "row_values g r = Inr v"
    "map (row_values g) rs = map Inr vs'"
    by (cases vs) auto
  obtain a b c where v: "v = (a, b, c)" by (cases v)
  let ?w = "write_to_csv f a b c w"
  have f: "files ?w f = Some (ls @ [Row a b c])"
    using Cons.prems(2) by (simp add: write_to_csv_def)
  have step: "write_rows g f (r # rs) w = write_rows g f rs ?w"
    using vs(2) v by simp
  have res: "write_rows g f rs ?w =
      (Inr (), ?w\<lparr>files := (files ?w)(f \<mapsto> (ls @ [Row a b c]) @ map (\<lambda>(a, b, c). Row a b c) vs')\<rparr>)"
    using Cons.IH [OF vs(3) f] .
  have upd: "?w\<lparr>files := (files ?w)(f \<mapsto> (ls @ [Row a b c]) @ map (\<lambda>(a, b, c). Row a b c) vs')\<rparr> =
      w\<lparr>files := (files w)(f \<mapsto> ls @ map (\<lambda>(a, b, c). Row a b c) ((a, b, c) # vs'))\<rparr>"
    by (simp add: write_to_csv_def)
  show ?case
    unfolding step res upd vs(1) v ..
qed

lemma processed_file_contents:
  assumes "read_stim st braidz_path = Inr stim" and "map (row_values g) stim = map Inr vs"
  shows "\<exists>w'. process_braidz_file st braidz_path output_path g w = (Inr True, w')
           \<and> files w' (output_file_of braidz_path output_path) =
               Some (Text ''obj_id,frame,stim_heading'' # map (\<lambda>(a, b, c). Row a b c) vs)
           \<and> (\<forall>f. f \<noteq> output_file_of braidz_path output_path \<longrightarrow> files w' f = files w f)"
proof -
  let ?o = "output_file_of braidz_path output_path"
  let ?w1 = "w\<lparr>files := (files w)(?o \<mapsto> [Text ''obj_id,frame,stim_heading''])\<rparr>"
  have "files ?w1 ?o = Some [Text ''obj_id,frame,stim_heading'']" by simp
  from write_rows_lines [OF assms(2) this]
  show ?thesis
    by (simp add: process_braidz_file_def assms(1) initialize_csv_writer_def print_def Let_def)
qed

text \<open>
  Claim C1 fails on the code. The table of \<open>opto.csv\<close> has the one row
  \<open>obj_id=1, frame=10, heading=1.0\<close> and no column \<open>stim_position_screen\<close>. The
  row loop passes the heading to the interpolation function like a screen position, and
  the line written holds the function's value at 1, which is not 1.
\<close>

theorem heading_row_is_interpolated:
  "\<exists>f w'. create_interpolation_function SCREEN2HEADING_DATA = Inr f
     \<and> process_braidz_file heading_store ''a.braidz'' ''out'' f empty_world = (Inr True, w')
     \<and> files w' ''out/a.csv'' = Some [Text ''obj_id,frame,stim_heading'', Row 1 10 (f 1)]
     \<and> f 1 \<noteq> Fin 1"
proof -
  obtain f where f: "create_interpolation_function SCREEN2HEADING_DATA = Inr f"
    using create_interpolation_function_table [of SCREEN2HEADING_DATA]
    by (simp add: SCREEN2HEADING_DATA_def)
  obtain y x where x: "x < 0" and e: "evaluate SCREEN2HEADING_DATA 1 = Inr (Fin (atan2 y x))"
    using evaluate_default_one by blast
  have "f 1 = Fin (atan2 y x)" using e f by (simp add: evaluate_def)
  then have ne: "f 1 \<noteq> Fin 1" using atan2_neg_x [OF x] by simp
  have rs: "read_stim heading_store ''a.braidz'' = Inr [heading_row]"
    by (simp add: read_stim_def heading_store_def read_member_def)
  have rv: "row_values f heading_row = Inr (1, 10, f 1)"
    by (rule row_values_heading) (simp_all add: heading_row_def)
  have "process_braidz_file heading_store ''a.braidz'' ''out'' f empty_world =
          (Inr True,
           \<lparr>files = [''out/a.csv'' \<mapsto> [Text ''obj_id,frame,stim_heading'', Row 1 10 (f 1)]],
            stdout = [''Interpolated a.braidz to out/a.csv'']\<rparr>)"
    by (simp add: process_braidz_file_def rs rv output_file_a initialize_csv_writer_def
        write_to_csv_def print_def empty_world_def Let_def)
  with f ne show ?thesis by simp
qed

text \<open>
  Claim C5, as amended. When the archive cannot be opened, or the member it would read
  (\<open>stim.csv\<close>, or \<open>opto.csv\<close> in its absence) cannot be parsed, or neither member
  is there, the call prints a message and returns \<open>False\<close>, and the loop of
  \<open>main\<close> goes on with the remaining archives.
\<close>

theorem read_failure_skipped:
  assumes "st braidz_file = Inl e
           \<or> (\<exists>z. st braidz_file = Inr z
                \<and> (z ''stim.csv'' = Some (Inl e)
                     \<or> (z ''stim.csv'' = None \<and> (z ''opto.csv'' = Some (Inl e) \<or> z ''opto.csv'' = None))))"
  shows "\<exists>msg. process_braidz_file st braidz_file output_path get_heading_func w = (Inr False, print msg w)
           \<and> process_all st (braidz_file # rest) output_path get_heading_func w =
               process_all st rest output_path get_heading_func (print msg w)"
proof -
  have "\<exists>msg. read_stim st braidz_file = Inl msg"
    using assms by (auto simp: read_stim_def read_member_def)
  then obtain msg where "read_stim st braidz_file = Inl msg" by blast
  then have "process_braidz_file st braidz_file output_path get_heading_func w = (Inr False, print msg w)"
    by (simp add: process_braidz_file_def)
  then have "process_braidz_file st braidz_file output_path get_heading_func w = (Inr False, print msg w)
      \<and> process_all st (braidz_file # rest) output_path get_heading_func w =
          process_all st rest output_path get_heading_func (print msg w)"
    by simp
  then show ?thesis by (rule exI)
qed

theorem read_failure_skipped_witness:
  "\<exists>msg. process_braidz_file broken_store ''a.braidz'' ''out'' Fin empty_world = (Inr False, print msg empty_world)
     \<and> process_all broken_store [''a.braidz'', ''b.braidz''] ''out'' Fin empty_world =
         process_all broken_store [''b.braidz''] ''out'' Fin (print msg empty_world)"
proof -
  have h: "broken_store ''a.braidz'' = Inl ''File is not a zip file''"
    by (simp add: broken_store_def)
  show ?thesis
    using read_failure_skipped [of broken_store "''a.braidz''" "''File is not a zip file''"
        "''out''" Fin empty_world "[''b.braidz'']"] h
    by simp
qed

text \<open>
  Claim C5 as stated fails: a row with neither source column raises \<open>KeyError\<close> in
  the row loop, outside the \<open>try\<close> block. The exception leaves the loop of
  \<open>main\<close>, and the next archive is not processed.
\<close>

theorem malformed_row_aborts_batch:
  "fst (process_all mixed_store [''a.braidz'', ''b.braidz''] ''out'' Fin empty_world) = Inl (KeyError ''heading'')
   \<and> files (snd (process_all mixed_store [''a.braidz'', ''b.braidz''] ''out'' Fin empty_world)) ''out/b.csv'' = None"
proof -
  have rs: "read_stim mixed_store ''a.braidz'' = Inr [malformed_row]"
    by (simp add: read_stim_def mixed_store_def read_member_def)
  have rv: "row_values Fin malformed_row = Inl (KeyError ''heading'')"
    by (simp add: row_values_def getitem_def malformed_row_def)
  have "process_braidz_file mixed_store ''a.braidz'' ''out'' Fin empty_world =
          (Inl (KeyError ''heading''),
           \<lparr>files = [''out/a.csv'' \<mapsto> [Text ''obj_id,frame,stim_heading'']], stdout = []\<rparr>)"
    by (simp add: process_braidz_file_def rs rv output_file_a initialize_csv_writer_def
        empty_world_def Let_def)
  then show ?thesis by simp
qed

text \<open>
  Claim C8 fails on the code. The name of the output file is cut at the first dot of the
  basename, not at the extension: \<open>run.v2.braidz\<close> is written to \<open>run.csv\<close>.
\<close>

theorem first_dot_cuts_name:
  "output_file_of ''run.v2.braidz'' ''out'' = ''out/run.csv''
   \<and> described_output_file ''run.v2.braidz'' ''out'' = ''out/run.v2.csv''"
  by (simp add: output_file_of_def described_output_file_def path_join_def split_dot_0_def
      basename_def without_extension_def)

end
